theory Spec2Isabelle
  imports Complex_Main
begin

section \<open>Numbers, entities and the drawing trace\<close>

text \<open>
  The embedding follows \<^verbatim>\<open>src/main.js\<close>, lines 34 to 334: the shared mouse tracker,
  the class \<^verbatim>\<open>AbstractCanvas\<close> and its five subclasses.

  JavaScript numbers that hold coordinates, velocities and angles are modelled as
  \<^typ>\<open>real\<close>: comparisons, sums and products are taken exactly, without rounding and
  without the infinities. The only place where the source can produce \<^verbatim>\<open>NaN\<close> from
  finite operands is the quotient \<^verbatim>\<open>dx / dist\<close> of \<^verbatim>\<open>SkillsCanvas.draw\<close> when
  \<^verbatim>\<open>dist\<close> is zero; the field it is stored in has the type \<open>jsnum\<close>, which keeps
  that case apart. Viewport sizes, loop counters of the grid and frame handles are
  whole numbers that never go negative and are modelled as \<^typ>\<open>nat\<close>.
\<close>

datatype jsnum = Num real | NaN

text \<open>The entity of \<^verbatim>\<open>HeroCanvas\<close> (\<^verbatim>\<open>createParticle\<close>, lines 116 to 124).\<close>

record hero_particle =
  hp_x :: real
  hp_y :: real
  hp_vx :: real
  hp_vy :: real
  hp_size :: real

text \<open>The entity of \<^verbatim>\<open>AboutCanvas\<close> (line 175).\<close>

record dot =
  originX :: real
  originY :: real
  dot_x :: real
  dot_y :: real

text \<open>The entity of \<^verbatim>\<open>SkillsCanvas\<close> (lines 206 to 214).\<close>

datatype shape_type = Square | Triangle

record shape =
  sh_x :: jsnum
  sh_y :: real
  sh_size :: real
  sh_angle :: real
  sh_speed :: real
  sh_rotSpeed :: real
  sh_type :: shape_type

text \<open>The entity of \<^verbatim>\<open>ContactCanvas\<close> (lines 284 to 290).\<close>

record particle =
  p_x :: real
  p_y :: real
  p_vx :: real
  p_vy :: real
  p_friction :: real

text \<open>
  What a session does to its surroundings is recorded in a trace: the calls that set the
  session up, the frame requests and cancellations, and the calls that put pixels on
  the drawing surface. A style assignment and the construction of a path are folded into
  the \<^verbatim>\<open>fill\<close> or \<^verbatim>\<open>stroke\<close> call that consumes them.
\<close>

datatype action =
    GetContext2d
  | Setup
  | ObserveParent
  | ListenResize
  | RequestFrame nat
  | CancelFrame nat
  | ClearRect nat nat
  | FillCircle real real real
  | StrokeLine real real real real
  | StrokeShape shape_type jsnum real real real
  | StrokePath "(real \<times> real) list"

section \<open>The five effects\<close>

subsection \<open>HeroCanvas: connected particles\<close>

text \<open>
  \<^verbatim>\<open>Math.random\<close> is a stream \<open>rnd\<close> of numbers and a position in it; every call
  reads the number at the position and advances it. The fields of the object literal of
  \<^verbatim>\<open>createParticle\<close> are evaluated in the order they are written.
\<close>

definition createParticle :: "(nat \<Rightarrow> real) \<Rightarrow> nat \<Rightarrow> nat \<Rightarrow> nat \<Rightarrow> hero_particle" where
  "createParticle rnd pos w h =
     \<lparr> hp_x = rnd pos * real w,
       hp_y = rnd (pos + 1) * real h,
       hp_vx = (rnd (pos + 2) - 0.5) * 1.5,
       hp_vy = (rnd (pos + 3) - 0.5) * 1.5,
       hp_size = rnd (pos + 4) * 2 + 1 \<rparr>"

definition HeroCanvas_init :: "(nat \<Rightarrow> real) \<Rightarrow> nat \<Rightarrow> nat \<Rightarrow> nat \<Rightarrow> hero_particle list \<times> nat" where
  "HeroCanvas_init rnd pos w h =
     (map (\<lambda>i. createParticle rnd (pos + 5 * i) w h) [0..<80], pos + 5 * 80)"

definition hero_move :: "nat \<Rightarrow> nat \<Rightarrow> hero_particle \<Rightarrow> hero_particle" where
  "hero_move w h p =
     (let x' = hp_x p + hp_vx p;
          y' = hp_y p + hp_vy p
      in p\<lparr> hp_x := x', hp_y := y',
            hp_vx := (if x' < 0 \<or> x' > real w then hp_vx p * (- 1) else hp_vx p),
            hp_vy := (if y' < 0 \<or> y' > real h then hp_vy p * (- 1) else hp_vy p) \<rparr>)"

text \<open>The inner loop over the particles that follow \<open>p\<close> in the array (lines 140 to 154).\<close>

fun hero_connections :: "hero_particle \<Rightarrow> hero_particle list \<Rightarrow> action list" where
  "hero_connections p [] = []"
| "hero_connections p (p2 # ps) =
     (let dx = hp_x p - hp_x p2;
          dy = hp_y p - hp_y p2;
          dist = sqrt (dx * dx + dy * dy)
      in (if dist < 150 then [StrokeLine (hp_x p) (hp_y p) (hp_x p2) (hp_y p2)] else [])
         @ hero_connections p ps)"

text \<open>
  \<^verbatim>\<open>forEach\<close> updates the particles in place from the first to the last, so the
  particles after the current one still hold the values of the previous frame when the
  connections are drawn.
\<close>

fun HeroCanvas_draw :: "nat \<Rightarrow> nat \<Rightarrow> hero_particle list \<Rightarrow> hero_particle list \<times> action list" where
  "HeroCanvas_draw w h [] = ([], [])"
| "HeroCanvas_draw w h (p # ps) =
     (let p' = hero_move w h p;
          rest = HeroCanvas_draw w h ps
      in (p' # fst rest,
          FillCircle (hp_x p') (hp_y p') (hp_size p') # hero_connections p' ps @ snd rest))"

subsection \<open>AboutCanvas: the repulsive grid\<close>

definition new_dot :: "nat \<Rightarrow> nat \<Rightarrow> dot" where
  "new_dot x y = \<lparr> originX = real x, originY = real y, dot_x = real x, dot_y = real y \<rparr>"

text \<open>
  The two nested loops of \<^verbatim>\<open>createDots\<close> (lines 173 to 177). The counters advance by
  \<^verbatim>\<open>this.spacing\<close>; with a spacing of zero a loop that is entered never ends, which is
  the value \<open>None\<close>.
\<close>

partial_function (option) createDots_y :: "nat \<Rightarrow> nat \<Rightarrow> nat \<Rightarrow> nat \<Rightarrow> dot list \<Rightarrow> dot list option" where
  "createDots_y x y h sp dots =
     (if y < h then createDots_y x (y + sp) h sp (dots @ [new_dot x y]) else Some dots)"

partial_function (option) createDots_x :: "nat \<Rightarrow> nat \<Rightarrow> nat \<Rightarrow> nat \<Rightarrow> dot list \<Rightarrow> dot list option" where
  "createDots_x x w h sp dots =
     (if x < w
      then Option.bind (createDots_y x 0 h sp dots) (\<lambda>dots'. createDots_x (x + sp) w h sp dots')
      else Some dots)"

definition createDots :: "nat \<Rightarrow> nat \<Rightarrow> nat \<Rightarrow> dot list option" where
  "createDots w h sp = createDots_x 0 w h sp []"

text \<open>\<^verbatim>\<open>AboutCanvas.init\<close>: the dots and the spacing it stores (lines 161 to 165).\<close>

definition AboutCanvas_init :: "nat \<Rightarrow> nat \<Rightarrow> (dot list \<times> nat) option" where
  "AboutCanvas_init w h = map_option (\<lambda>dots. (dots, 50)) (createDots w h 50)"

text \<open>
  \<^verbatim>\<open>Math.atan2\<close> of the platform, by its defining cases; \<open>atan2 y x\<close> is the angle of
  the point \<open>(x, y)\<close>.
\<close>

definition atan2 :: "real \<Rightarrow> real \<Rightarrow> real" where
  "atan2 y x =
     (if 0 < x then arctan (y / x)
      else if x < 0 then (if 0 \<le> y then arctan (y / x) + pi else arctan (y / x) - pi)
      else if 0 < y then pi / 2
      else if y < 0 then - (pi / 2)
      else 0)"

text \<open>
  The locals \<^verbatim>\<open>dist\<close> and \<^verbatim>\<open>force\<close> of the body of \<^verbatim>\<open>AboutCanvas.draw\<close>
  (lines 183 to 186); \<open>rtop\<close> is \<^verbatim>\<open>this.canvas.getBoundingClientRect().top\<close>.
\<close>

definition about_dist :: "real \<times> real \<Rightarrow> real \<Rightarrow> dot \<Rightarrow> real" where
  "about_dist mouse rtop d =
     (let dx = fst mouse - dot_x d;
          dy = snd mouse - (dot_y d + rtop)
      in sqrt (dx * dx + dy * dy))"

definition about_force :: "real \<times> real \<Rightarrow> real \<Rightarrow> dot \<Rightarrow> real" where
  "about_force mouse rtop d = max 0 (150 - about_dist mouse rtop d) / 150"

definition about_step :: "real \<times> real \<Rightarrow> real \<Rightarrow> dot \<Rightarrow> dot" where
  "about_step mouse rtop d =
     (let dx = fst mouse - dot_x d;
          dy = snd mouse - (dot_y d + rtop);
          force = about_force mouse rtop d;
          angle = atan2 dy dx;
          move = force * 40
      in d\<lparr> dot_x := dot_x d + (originX d - cos angle * move - dot_x d) * 0.1,
            dot_y := dot_y d + (originY d - sin angle * move - dot_y d) * 0.1 \<rparr>)"

definition AboutCanvas_draw :: "real \<times> real \<Rightarrow> real \<Rightarrow> dot list \<Rightarrow> dot list \<times> action list" where
  "AboutCanvas_draw mouse rtop dots =
     (let dots' = map (about_step mouse rtop) dots
      in (dots', map (\<lambda>d. FillCircle (dot_x d) (dot_y d) 2) dots'))"

subsection \<open>SkillsCanvas: floating shapes\<close>

definition new_shape :: "(nat \<Rightarrow> real) \<Rightarrow> nat \<Rightarrow> nat \<Rightarrow> nat \<Rightarrow> shape" where
  "new_shape rnd pos w h =
     \<lparr> sh_x = Num (rnd pos * real w),
       sh_y = rnd (pos + 1) * real h,
       sh_size = rnd (pos + 2) * 30 + 10,
       sh_angle = rnd (pos + 3) * pi * 2,
       sh_speed = rnd (pos + 4) * 0.5 + 0.2,
       sh_rotSpeed = (rnd (pos + 5) - 0.5) * 0.02,
       sh_type = (if rnd (pos + 6) > 0.5 then Square else Triangle) \<rparr>"

definition SkillsCanvas_init :: "(nat \<Rightarrow> real) \<Rightarrow> nat \<Rightarrow> nat \<Rightarrow> nat \<Rightarrow> shape list \<times> nat" where
  "SkillsCanvas_init rnd pos w h =
     (map (\<lambda>i. new_shape rnd (pos + 7 * i) w h) [0..<15], pos + 7 * 15)"

text \<open>
  The distance of the mouse interaction (lines 227 to 229), taken after the shape has
  moved up. A horizontal position that is \<^verbatim>\<open>NaN\<close> gives a distance that is
  \<^verbatim>\<open>NaN\<close>, for which the comparison \<^verbatim>\<open>dist < 200\<close> is false.
\<close>

definition skills_dist :: "real \<times> real \<Rightarrow> real \<Rightarrow> real \<Rightarrow> real \<Rightarrow> real" where
  "skills_dist mouse rtop x y =
     (let dy = snd mouse - (y + rtop);
          dx = fst mouse - x
      in sqrt (dx * dx + dy * dy))"

definition skills_near :: "real \<times> real \<Rightarrow> real \<Rightarrow> shape \<Rightarrow> bool" where
  "skills_near mouse rtop s =
     (case sh_x s of
        NaN \<Rightarrow> False
      | Num x \<Rightarrow> skills_dist mouse rtop x (sh_y s - sh_speed s) < 200)"

definition skills_step :: "real \<times> real \<Rightarrow> real \<Rightarrow> nat \<Rightarrow> shape \<Rightarrow> shape" where
  "skills_step mouse rtop h s =
     (let y1 = sh_y s - sh_speed s;
          angle' = sh_angle s + sh_rotSpeed s;
          x' = (case sh_x s of
                  NaN \<Rightarrow> NaN
                | Num x \<Rightarrow>
                    (let dist = skills_dist mouse rtop x y1
                     in if dist < 200
                        then (if dist = 0 then NaN else Num (x - (fst mouse - x) / dist))
                        else Num x));
          y' = (if y1 < - 50 then real h + 50 else y1)
      in s\<lparr> sh_x := x', sh_y := y', sh_angle := angle' \<rparr>)"

definition SkillsCanvas_draw :: "real \<times> real \<Rightarrow> real \<Rightarrow> nat \<Rightarrow> shape list \<Rightarrow> shape list \<times> action list" where
  "SkillsCanvas_draw mouse rtop h shapes =
     (let shapes' = map (skills_step mouse rtop h) shapes
      in (shapes',
          map (\<lambda>s. StrokeShape (sh_type s) (sh_x s) (sh_y s) (sh_angle s) (sh_size s)) shapes'))"

subsection \<open>ProjectsCanvas: sine waves\<close>

definition wave_point :: "nat \<Rightarrow> real \<Rightarrow> nat \<Rightarrow> nat \<Rightarrow> real \<times> real" where
  "wave_point h offset i x =
     (let y = real h / 2
              + sin (real x * 0.01 + offset + real i) * 50
              + sin (real x * 0.005 + offset * 0.5) * 100
      in (real x, y + real i * 20))"

definition ProjectsCanvas_draw :: "nat \<Rightarrow> nat \<Rightarrow> real \<Rightarrow> real \<times> action list" where
  "ProjectsCanvas_draw w h offset =
     (let offset' = offset + 0.05
      in (offset', map (\<lambda>i. StrokePath (map (wave_point h offset' i) [0..<w])) [0..<5]))"

subsection \<open>ContactCanvas: gravity particles\<close>

definition new_particle :: "(nat \<Rightarrow> real) \<Rightarrow> nat \<Rightarrow> nat \<Rightarrow> nat \<Rightarrow> particle" where
  "new_particle rnd pos w h =
     \<lparr> p_x = rnd pos * real w,
       p_y = rnd (pos + 1) * real h,
       p_vx = 0,
       p_vy = 0,
       p_friction = 0.95 \<rparr>"

definition ContactCanvas_init :: "(nat \<Rightarrow> real) \<Rightarrow> nat \<Rightarrow> nat \<Rightarrow> nat \<Rightarrow> particle list \<times> nat" where
  "ContactCanvas_init rnd pos w h =
     (map (\<lambda>i. new_particle rnd (pos + 2 * i) w h) [0..<50], pos + 2 * 50)"

definition contact_dist :: "real \<times> real \<Rightarrow> real \<Rightarrow> particle \<Rightarrow> real" where
  "contact_dist mouse rtop p =
     (let dx = fst mouse - p_x p;
          dy = snd mouse - rtop - p_y p
      in sqrt (dx * dx + dy * dy))"

text \<open>
  One particle of \<^verbatim>\<open>ContactCanvas.draw\<close> (lines 299 to 320): attraction, motion,
  friction, the random jitter \<open>r\<close> and the wrap-around.
\<close>

definition contact_step :: "real \<times> real \<Rightarrow> real \<Rightarrow> nat \<Rightarrow> nat \<Rightarrow> real \<Rightarrow> particle \<Rightarrow> particle" where
  "contact_step mouse rtop w h r p =
     (let dx = fst mouse - p_x p;
          dy = snd mouse - rtop - p_y p;
          near = contact_dist mouse rtop p < 300;
          vx1 = (if near then p_vx p + dx * 0.001 else p_vx p);
          vy1 = (if near then p_vy p + dy * 0.001 else p_vy p);
          x1 = p_x p + vx1;
          y1 = p_y p + vy1;
          vx2 = vx1 * p_friction p;
          vy2 = vy1 * p_friction p;
          x2 = x1 + (r - 0.5);
          x3 = (if x2 < 0 then real w else x2);
          x4 = (if x3 > real w then 0 else x3);
          y2 = (if y1 < 0 then real h else y1);
          y3 = (if y2 > real h then 0 else y2)
      in p\<lparr> p_x := x4, p_y := y3, p_vx := vx2, p_vy := vy2 \<rparr>)"

fun contact_steps :: "real \<times> real \<Rightarrow> real \<Rightarrow> nat \<Rightarrow> nat \<Rightarrow> (nat \<Rightarrow> real) \<Rightarrow> nat \<Rightarrow> particle list \<Rightarrow> particle list" where
  "contact_steps mouse rtop w h rnd pos [] = []"
| "contact_steps mouse rtop w h rnd pos (p # ps) =
     contact_step mouse rtop w h (rnd pos) p # contact_steps mouse rtop w h rnd (Suc pos) ps"

definition ContactCanvas_draw ::
  "real \<times> real \<Rightarrow> real \<Rightarrow> nat \<Rightarrow> nat \<Rightarrow> (nat \<Rightarrow> real) \<Rightarrow> nat \<Rightarrow> particle list
     \<Rightarrow> (particle list \<times> nat) \<times> action list" where
  "ContactCanvas_draw mouse rtop w h rnd pos ps =
     (let ps' = contact_steps mouse rtop w h rnd pos ps
      in ((ps', pos + length ps), map (\<lambda>p. FillCircle (p_x p) (p_y p) 2) ps'))"

section \<open>The canvas session and its host\<close>

text \<open>
  The state of one effect, by the subclass that owns it. \<^verbatim>\<open>AboutCanvas\<close> keeps its
  spacing beside its dots; \<^verbatim>\<open>ProjectsCanvas\<close> keeps only its offset.
\<close>

datatype canvas_class = HeroCanvas | AboutCanvas | SkillsCanvas | ProjectsCanvas | ContactCanvas

datatype effect_state =
    Hero "hero_particle list"
  | About "dot list" nat
  | Skills "shape list"
  | Projects real
  | Contact "particle list"

text \<open>
  The constructor of \<^verbatim>\<open>AbstractCanvas\<close> (lines 43 to 76) leaves one of two objects
  behind. When the element is missing it returns at line 45 and the object has no
  field but a null \<^verbatim>\<open>canvas\<close>: the session is \<open>Inert\<close>. Otherwise every field is set
  and the session is \<open>Live\<close>; the drawing context is captured together with the
  element, and the two colour strings are constants that no claim reads.
\<close>

record live =
  width :: nat
  height :: nat
  animationId :: "nat option"
  isVisible :: bool
  effect :: effect_state

datatype session = Inert | Live live

text \<open>
  The world of one session: the page it lives on and the session itself.
  \<^item> \<open>element\<close> is the canvas element that \<^verbatim>\<open>getElementById\<close> finds, with its
    \<^verbatim>\<open>width\<close> and \<^verbatim>\<open>height\<close> attributes, or \<open>None\<close> when the page has none;
  \<^item> \<open>innerWidth\<close> and \<open>innerHeight\<close> are the viewport's dimensions;
  \<^item> \<open>mouse\<close> is the shared mouse tracker of line 35;
  \<^item> \<open>rectTop\<close> is the top of the element's bounding rectangle, which scrolling moves;
  \<^item> \<open>rand\<close> and \<open>rand_pos\<close> are \<^verbatim>\<open>Math.random\<close>;
  \<^item> \<open>frame_id\<close> is the window's animation frame callback identifier and \<open>pending\<close>
    holds the handles of the session's callbacks that wait for the next frame;
  \<^item> \<open>observed\<close> and \<open>resize_listener\<close> say whether the session's intersection
    observer and its resize listener are registered;
  \<^item> \<open>trace\<close> is what the session has done so far.
\<close>

record world =
  element :: "(nat \<times> nat) option"
  innerWidth :: nat
  innerHeight :: nat
  mouse :: "real \<times> real"
  rectTop :: real
  rand :: "nat \<Rightarrow> real"
  rand_pos :: nat
  frame_id :: nat
  pending :: "nat list"
  observed :: bool
  resize_listener :: bool
  trace :: "action list"
  session :: session

text \<open>
  A call that does not return normally: a property read on \<^verbatim>\<open>null\<close> throws a
  \<^verbatim>\<open>TypeError\<close>, and a loop that never ends does not return at all.
\<close>

datatype failure = TypeError | NoReturn

text \<open>
  The page as the script finds it when it reaches the constructors at line 330: the
  mouse holds its default, no session exists, nothing is registered and nothing has
  been drawn.
\<close>

definition page_load ::
  "(nat \<times> nat) option \<Rightarrow> nat \<Rightarrow> nat \<Rightarrow> real \<Rightarrow> (nat \<Rightarrow> real) \<Rightarrow> nat \<Rightarrow> nat \<Rightarrow> world" where
  "page_load el iw ih rtop rnd pos fid =
     \<lparr> element = el, innerWidth = iw, innerHeight = ih, mouse = (- 1000, - 1000),
       rectTop = rtop, rand = rnd, rand_pos = pos, frame_id = fid, pending = [],
       observed = False, resize_listener = False, trace = [], session = Inert \<rparr>"

text \<open>
  The fields \<^verbatim>\<open>animationId\<close> and \<^verbatim>\<open>isVisible\<close> as the methods read them. On an
  inert session both are \<^verbatim>\<open>undefined\<close>, which the tests of lines 85, 91 and 98 take
  as null and as false.
\<close>

definition animationId_of :: "world \<Rightarrow> nat option" where
  "animationId_of w = (case session w of Inert \<Rightarrow> None | Live l \<Rightarrow> animationId l)"

definition isVisible_of :: "world \<Rightarrow> bool" where
  "isVisible_of w = (case session w of Inert \<Rightarrow> False | Live l \<Rightarrow> isVisible l)"

text \<open>
  The test \<^verbatim>\<open>this.animationId\<close> of lines 85 and 91 is a truthiness test: null,
  \<^verbatim>\<open>undefined\<close> and the number zero fail it.
\<close>

definition truthy :: "nat option \<Rightarrow> bool" where
  "truthy v = (case v of None \<Rightarrow> False | Some n \<Rightarrow> n \<noteq> 0)"

subsection \<open>The host's frame requests\<close>

text \<open>
  \<^verbatim>\<open>requestAnimationFrame\<close> of the platform: the identifier is incremented by one, the
  result is the handle, and the callback waits under it.
  \<^verbatim>\<open>cancelAnimationFrame\<close> removes the callback that waits under a handle.
\<close>

definition requestAnimationFrame :: "world \<Rightarrow> world \<times> nat" where
  "requestAnimationFrame w =
     (let h = Suc (frame_id w)
      in (w\<lparr> frame_id := h, pending := pending w @ [h], trace := trace w @ [RequestFrame h] \<rparr>, h))"

definition cancelAnimationFrame :: "nat \<Rightarrow> world \<Rightarrow> world" where
  "cancelAnimationFrame h w =
     w\<lparr> pending := removeAll h (pending w), trace := trace w @ [CancelFrame h] \<rparr>"

subsection \<open>The hooks of the subclasses\<close>

text \<open>
  \<^verbatim>\<open>this.init()\<close> of line 56, by the class of the object: the effect's state and the
  new position of the random stream, or \<open>None\<close> when the setup does not return.
\<close>

definition effect_init ::
  "canvas_class \<Rightarrow> (nat \<Rightarrow> real) \<Rightarrow> nat \<Rightarrow> nat \<Rightarrow> nat \<Rightarrow> (effect_state \<times> nat) option" where
  "effect_init c rnd pos w h =
     (case c of
        HeroCanvas \<Rightarrow>
          (let r = HeroCanvas_init rnd pos w h in Some (Hero (fst r), snd r))
      | AboutCanvas \<Rightarrow>
          map_option (\<lambda>r. (About (fst r) (snd r), pos)) (AboutCanvas_init w h)
      | SkillsCanvas \<Rightarrow>
          (let r = SkillsCanvas_init rnd pos w h in Some (Skills (fst r), snd r))
      | ProjectsCanvas \<Rightarrow> Some (Projects 0, pos)
      | ContactCanvas \<Rightarrow>
          (let r = ContactCanvas_init rnd pos w h in Some (Contact (fst r), snd r)))"

text \<open>
  \<^verbatim>\<open>this.draw && this.draw()\<close> of line 100: every subclass has a \<^verbatim>\<open>draw\<close>. The
  result is the effect's new state, the new position of the random stream and the
  drawing calls of the frame.
\<close>

definition effect_draw ::
  "real \<times> real \<Rightarrow> real \<Rightarrow> nat \<Rightarrow> nat \<Rightarrow> (nat \<Rightarrow> real) \<Rightarrow> nat \<Rightarrow> effect_state
     \<Rightarrow> (effect_state \<times> nat) \<times> action list" where
  "effect_draw m rtop w h rnd pos e =
     (case e of
        Hero ps \<Rightarrow> (let r = HeroCanvas_draw w h ps in ((Hero (fst r), pos), snd r))
      | About dots sp \<Rightarrow> (let r = AboutCanvas_draw m rtop dots in ((About (fst r) sp, pos), snd r))
      | Skills shapes \<Rightarrow> (let r = SkillsCanvas_draw m rtop h shapes in ((Skills (fst r), pos), snd r))
      | Projects offset \<Rightarrow> (let r = ProjectsCanvas_draw w h offset in ((Projects (fst r), pos), snd r))
      | Contact ps \<Rightarrow>
          (let r = ContactCanvas_draw m rtop w h rnd pos ps
           in ((Contact (fst (fst r)), snd (fst r)), snd r)))"

text \<open>
  \<^verbatim>\<open>this.onResize && this.onResize()\<close> of line 81: only \<^verbatim>\<open>AboutCanvas\<close> has the
  hook, and it runs \<^verbatim>\<open>createDots\<close> on the new dimensions (lines 167 to 169).
\<close>

definition effect_onResize :: "nat \<Rightarrow> nat \<Rightarrow> effect_state \<Rightarrow> effect_state option" where
  "effect_onResize w h e =
     (case e of
        About dots sp \<Rightarrow> map_option (\<lambda>dots'. About dots' sp) (createDots w h sp)
      | _ \<Rightarrow> Some e)"

subsection \<open>The methods of AbstractCanvas\<close>

text \<open>\<^verbatim>\<open>animate\<close>, lines 97 to 102.\<close>

definition animate :: "world \<Rightarrow> world" where
  "animate w =
     (case session w of
        Inert \<Rightarrow> w
      | Live l \<Rightarrow>
          if \<not> isVisible l then w
          else
            (let r = effect_draw (mouse w) (rectTop w) (width l) (height l)
                       (rand w) (rand_pos w) (effect l);
                 w1 = w\<lparr> trace := trace w @ [ClearRect (width l) (height l)] @ snd r,
                         rand_pos := snd (fst r) \<rparr>;
                 q = requestAnimationFrame w1
             in (fst q)\<lparr> session := Live (l\<lparr> effect := fst (fst r), animationId := Some (snd q) \<rparr>) \<rparr>))"

text \<open>\<^verbatim>\<open>start\<close>, lines 84 to 88.\<close>

definition start :: "world \<Rightarrow> world" where
  "start w = (if \<not> truthy (animationId_of w) then animate w else w)"

text \<open>\<^verbatim>\<open>stop\<close>, lines 90 to 95.\<close>

definition stop :: "world \<Rightarrow> world" where
  "stop w =
     (case session w of
        Inert \<Rightarrow> w
      | Live l \<Rightarrow>
          (case animationId l of
             None \<Rightarrow> w
           | Some h \<Rightarrow>
               if h \<noteq> 0
               then (cancelAnimationFrame h w)\<lparr> session := Live (l\<lparr> animationId := None \<rparr>) \<rparr>
               else w))"

text \<open>
  \<^verbatim>\<open>resize\<close>, lines 78 to 82. On an inert session \<^verbatim>\<open>this.canvas\<close> is null and the
  assignment to \<^verbatim>\<open>this.canvas.width\<close> throws.
\<close>

definition resize :: "world \<Rightarrow> failure + world" where
  "resize w =
     (case session w of
        Inert \<Rightarrow> Inl TypeError
      | Live l \<Rightarrow>
          (case effect_onResize (innerWidth w) (innerHeight w) (effect l) of
             None \<Rightarrow> Inl NoReturn
           | Some e \<Rightarrow>
               Inr (w\<lparr> element := Some (innerWidth w, innerHeight w),
                       session := Live (l\<lparr> width := innerWidth w, height := innerHeight w,
                                            effect := e \<rparr>) \<rparr>)))"

text \<open>
  The callback of the intersection observer, lines 60 to 70: the entries are handled
  in order. The callback is a closure of the live branch of the constructor.
\<close>

definition set_isVisible :: "bool \<Rightarrow> world \<Rightarrow> world" where
  "set_isVisible b w =
     (case session w of Inert \<Rightarrow> w | Live l \<Rightarrow> w\<lparr> session := Live (l\<lparr> isVisible := b \<rparr>) \<rparr>)"

fun observer_callback :: "bool list \<Rightarrow> world \<Rightarrow> world" where
  "observer_callback [] w = w"
| "observer_callback (isIntersecting # entries) w =
     observer_callback entries
       (if isIntersecting then start (set_isVisible True w) else stop (set_isVisible False w))"

text \<open>
  The constructor, lines 43 to 76, for an object of class \<open>c\<close>: the element lookup and
  the early return, the fields, \<^verbatim>\<open>init\<close>, the observer and the resize listener.
\<close>

definition new_canvas :: "canvas_class \<Rightarrow> world \<Rightarrow> failure + world" where
  "new_canvas c w =
     (case element w of
        None \<Rightarrow> Inr (w\<lparr> session := Inert \<rparr>)
      | Some el \<Rightarrow>
          (case effect_init c (rand w) (rand_pos w) (innerWidth w) (innerHeight w) of
             None \<Rightarrow> Inl NoReturn
           | Some r \<Rightarrow>
               Inr (w\<lparr> rand_pos := snd r, observed := True, resize_listener := True,
                       trace := trace w @ [GetContext2d, Setup, ObserveParent, ListenResize],
                       session := Live \<lparr> width = innerWidth w, height = innerHeight w,
                                         animationId = None, isVisible = False,
                                         effect = fst r \<rparr> \<rparr>)))"

subsection \<open>What the host does to a session\<close>

text \<open>
  The host runs the animation frame callbacks of a frame: it takes the handles that
  wait, and for each one that still waits when its turn comes it removes the callback
  and calls it. Every callback of the session is \<^verbatim>\<open>() => this.animate()\<close>.
\<close>

fun run_frame_callbacks :: "nat list \<Rightarrow> world \<Rightarrow> world" where
  "run_frame_callbacks [] w = w"
| "run_frame_callbacks (h # hs) w =
     run_frame_callbacks hs
       (if h \<in> set (pending w) then animate (w\<lparr> pending := removeAll h (pending w) \<rparr>) else w)"

text \<open>
  The events of a session's life. The first five come from the host: an intersection
  notification with its entries, a resize of the window to new dimensions, a move of
  the pointer, a scroll that moves the element's rectangle, and a frame. The next two are
  the rest of the page at work: the smooth-scroll loop of line 21 and the other sessions
  request frames of the same window and draw from the same \<^verbatim>\<open>Math.random\<close>. The last
  three are the calls the lifecycle speaks of: \<^verbatim>\<open>start\<close> and \<^verbatim>\<open>stop\<close> called on
  the session, and a frame callback that was already dispatched when its request was
  cancelled and runs \<^verbatim>\<open>animate\<close> all the same.
\<close>

datatype event =
    Intersection "bool list"
  | WindowResize nat nat
  | MouseMove real real
  | Scroll real
  | AnimationFrame
  | ForeignFrameRequest
  | ForeignRandom
  | CallStart
  | CallStop
  | InFlightFrame

text \<open>
  An intersection notification reaches the session only through its observer and a
  resize only through its listener; the mouse listener of line 36 belongs to the page.
\<close>

definition step :: "event \<Rightarrow> world \<Rightarrow> failure + world" where
  "step e w =
     (case e of
        Intersection entries \<Rightarrow> Inr (if observed w then observer_callback entries w else w)
      | WindowResize iw ih \<Rightarrow>
          (let w' = w\<lparr> innerWidth := iw, innerHeight := ih \<rparr>
           in if resize_listener w then resize w' else Inr w')
      | MouseMove cx cy \<Rightarrow> Inr (w\<lparr> mouse := (cx, cy) \<rparr>)
      | Scroll rtop \<Rightarrow> Inr (w\<lparr> rectTop := rtop \<rparr>)
      | AnimationFrame \<Rightarrow> Inr (run_frame_callbacks (pending w) w)
      | ForeignFrameRequest \<Rightarrow> Inr (w\<lparr> frame_id := Suc (frame_id w) \<rparr>)
      | ForeignRandom \<Rightarrow> Inr (w\<lparr> rand_pos := Suc (rand_pos w) \<rparr>)
      | CallStart \<Rightarrow> Inr (start w)
      | CallStop \<Rightarrow> Inr (stop w)
      | InFlightFrame \<Rightarrow> Inr (animate w))"

fun run :: "event list \<Rightarrow> world \<Rightarrow> failure + world" where
  "run [] w = Inr w"
| "run (e # es) w = (case step e w of Inl f \<Rightarrow> Inl f | Inr w' \<Rightarrow> run es w')"

text \<open>
  The life of a session of class \<open>c\<close> on a page: the constructor, then the events in
  their order.
\<close>

definition lifetime :: "canvas_class \<Rightarrow> world \<Rightarrow> event list \<Rightarrow> failure + world" where
  "lifetime c pg evs = (case new_canvas c pg of Inl f \<Rightarrow> Inl f | Inr w \<Rightarrow> run evs w)"

section \<open>Predicates of the specification\<close>

text \<open>
  The regular grid the specification describes for a viewport of \<open>w\<close> by \<open>h\<close> and a
  spacing \<open>sp\<close>: one dot at every multiple of the spacing below the width and the
  height, column after column.
\<close>

definition dot_grid :: "nat \<Rightarrow> nat \<Rightarrow> nat \<Rightarrow> dot list" where
  "dot_grid w h sp =
     concat (map (\<lambda>i. map (\<lambda>j. new_dot (i * sp) (j * sp)) [0..<nat \<lceil>real h / real sp\<rceil>])
               [0..<nat \<lceil>real w / real sp\<rceil>])"

text \<open>A particle of the gravity effect lies on the surface of \<open>w\<close> by \<open>h\<close>.\<close>

definition in_bounds :: "nat \<Rightarrow> nat \<Rightarrow> particle \<Rightarrow> bool" where
  "in_bounds w h p = (0 \<le> p_x p \<and> p_x p \<le> real w \<and> 0 \<le> p_y p \<and> p_y p \<le> real h)"

text \<open>
  The distances to the pointer that a frame step beginning in \<open>w\<close> would compute, one
  for every entity of an effect that reads the pointer. A shape whose horizontal position
  is \<^verbatim>\<open>NaN\<close> has no distance to compare.
\<close>

definition pointer_dists :: "world \<Rightarrow> real option list" where
  "pointer_dists w =
     (case session w of
        Inert \<Rightarrow> []
      | Live l \<Rightarrow>
          (case effect l of
             About dots sp \<Rightarrow> map (\<lambda>d. Some (about_dist (mouse w) (rectTop w) d)) dots
           | Skills shapes \<Rightarrow>
               map (\<lambda>s. case sh_x s of
                           NaN \<Rightarrow> None
                         | Num x \<Rightarrow> Some (skills_dist (mouse w) (rectTop w) x (sh_y s - sh_speed s)))
                 shapes
           | Contact ps \<Rightarrow> map (\<lambda>p. Some (contact_dist (mouse w) (rectTop w) p)) ps
           | _ \<Rightarrow> []))"

text \<open>
  Some entity feels the pointer in a frame step beginning in \<open>w\<close>: a dot of the grid
  has a force that is not zero, or a shape or a gravity particle takes the branch of its
  interaction.
\<close>

definition pointer_interaction :: "world \<Rightarrow> bool" where
  "pointer_interaction w =
     (case session w of
        Inert \<Rightarrow> False
      | Live l \<Rightarrow>
          (case effect l of
             About dots sp \<Rightarrow> list_ex (\<lambda>d. about_force (mouse w) (rectTop w) d \<noteq> 0) dots
           | Skills shapes \<Rightarrow> list_ex (skills_near (mouse w) (rectTop w)) shapes
           | Contact ps \<Rightarrow> list_ex (\<lambda>p. contact_dist (mouse w) (rectTop w) p < 300) ps
           | _ \<Rightarrow> False))"

text \<open>
  A pointer event of the page carries viewport coordinates, which are not negative; the
  other events say nothing about the pointer.
\<close>

fun viewport_pointer :: "event \<Rightarrow> bool" where
  "viewport_pointer (MouseMove cx cy) = (0 \<le> cx \<and> 0 \<le> cy)"
| "viewport_pointer _ = True"

text \<open>A distance that exists and is greater than the radius \<open>r\<close>.\<close>

definition beyond :: "real \<Rightarrow> real option \<Rightarrow> bool" where
  "beyond r d = (case d of None \<Rightarrow> False | Some v \<Rightarrow> r < v)"

text \<open>
  The width and height a session has recorded, as \<^verbatim>\<open>this.width\<close> and
  \<^verbatim>\<open>this.height\<close> read; an inert session has recorded none.
\<close>

definition recorded_size :: "world \<Rightarrow> (nat \<times> nat) option" where
  "recorded_size w = (case session w of Inert \<Rightarrow> None | Live l \<Rightarrow> Some (width l, height l))"

text \<open>
  Every frame callback of the run that was already dispatched when its request was
  cancelled begins while the session holds no handle, and every event of the run returns.
\<close>

fun in_flight_only_when_idle :: "event list \<Rightarrow> world \<Rightarrow> bool" where
  "in_flight_only_when_idle [] w = True"
| "in_flight_only_when_idle (e # es) w =
     ((if e = InFlightFrame then animationId_of w = None else True)
      \<and> (case step e w of Inl f \<Rightarrow> False | Inr w' \<Rightarrow> in_flight_only_when_idle es w'))"



text \<open>A stream of random numbers for concrete runs: every call returns one half.\<close>

definition always_half :: "nat \<Rightarrow> real" where
  "always_half n = 1 / 2"

text \<open>
  A page for concrete runs: a canvas element of the default size in a viewport of 800 by
  600, not scrolled, on which one frame has been requested before the constructors run
  (line 26).
\<close>

definition sample_page :: world where
  "sample_page = page_load (Some (300, 150)) 800 600 0 always_half 0 1"

section \<open>Invariants of the worlds a session can reach\<close>

text \<open>
  A handle is a positive number and is held only while the session is visible; a
  session is registered with the host exactly when it is live; the spacing of the grid
  is positive.
\<close>

definition lifecycle_inv :: "world \<Rightarrow> bool" where
  "lifecycle_inv w =
     (case session w of
        Inert \<Rightarrow> \<not> observed w \<and> \<not> resize_listener w
      | Live l \<Rightarrow>
          observed w \<and> resize_listener w
          \<and> (case animationId l of None \<Rightarrow> True | Some h \<Rightarrow> h \<noteq> 0 \<and> isVisible l)
          \<and> (case effect l of About dots sp \<Rightarrow> 0 < sp | _ \<Rightarrow> True))"

text \<open>A visible session holds a handle.\<close>

definition loop_inv :: "world \<Rightarrow> bool" where
  "loop_inv w = (isVisible_of w \<longrightarrow> animationId_of w \<noteq> None)"

text \<open>The callbacks that wait are exactly the one the session holds the handle of.\<close>

definition single_loop :: "world \<Rightarrow> bool" where
  "single_loop w = (pending w = (case animationId_of w of None \<Rightarrow> [] | Some h \<Rightarrow> [h]))"

text \<open>
  No entity that reads the pointer lies left of the origin, and a dot of the grid rests
  on its origin.
\<close>

definition right_of_origin :: "effect_state \<Rightarrow> bool" where
  "right_of_origin e =
     (case e of
        About dots sp \<Rightarrow> list_all (\<lambda>d. 0 \<le> dot_x d \<and> dot_x d = originX d) dots
      | Skills shapes \<Rightarrow> list_all (\<lambda>s. case sh_x s of NaN \<Rightarrow> False | Num x \<Rightarrow> 0 \<le> x) shapes
      | Contact ps \<Rightarrow> list_all (\<lambda>p. 0 \<le> p_x p) ps
      | _ \<Rightarrow> True)"

text \<open>
  Either the pointer has moved into the viewport, or it holds its default and no entity
  lies left of the origin.
\<close>

definition idle_inv :: "world \<Rightarrow> bool" where
  "idle_inv w =
     (0 \<le> fst (mouse w)
      \<or> mouse w = (- 1000, - 1000)
         \<and> (case session w of Inert \<Rightarrow> True | Live l \<Rightarrow> right_of_origin (effect l)))"

section \<open>The grid of createDots\<close>

lemma nat_ceiling_pos_Suc:
  fixes x :: real
  assumes "0 < x"
  shows "nat \<lceil>x\<rceil> = Suc (nat \<lceil>x - 1\<rceil>)"
proof -
  have "1 \<le> \<lceil>x\<rceil>" using assms by (simp add: ceiling_le_iff less_ceiling_iff Suc_le_eq)
  then show ?thesis by (simp add: nat_diff_distrib Suc_nat_eq_nat_zadd1)
qed

lemma steps_Suc:
  assumes "0 < sp" "y < h"
  shows "nat \<lceil>(real h - real y) / real sp\<rceil> = Suc (nat \<lceil>(real h - real (y + sp)) / real sp\<rceil>)"
proof -
  have "(real h - real (y + sp)) / real sp = (real h - real y) / real sp - 1"
    using assms by (simp add: field_simps)
  moreover have "0 < (real h - real y) / real sp" using assms by simp
  ultimately show ?thesis using nat_ceiling_pos_Suc by simp
qed

lemma steps_0:
  assumes "\<not> y < h"
  shows "nat \<lceil>(real h - real y) / real sp\<rceil> = 0"
proof -
  have "(real h - real y) / real sp \<le> 0" using assms by (simp add: divide_nonpos_nonneg)
  then show ?thesis by (simp add: ceiling_le_iff)
qed

lemma createDots_y_eq:
  assumes "0 < sp"
  shows "createDots_y x y h sp acc =
           Some (acc @ map (\<lambda>j. new_dot x (y + j * sp)) [0..<nat \<lceil>(real h - real y) / real sp\<rceil>])"
proof (induction "h - y" arbitrary: y acc rule: less_induct)
  case less
  show ?case
  proof (cases "y < h")
    case False
    then show ?thesis
      by (subst createDots_y.simps) (simp add: steps_0)
  next
    case True
    have "h - (y + sp) < h - y" using True assms by simp
    then have ih: "createDots_y x (y + sp) h sp (acc @ [new_dot x y]) =
        Some ((acc @ [new_dot x y]) @ map (\<lambda>j. new_dot x ((y + sp) + j * sp))
               [0..<nat \<lceil>(real h - real (y + sp)) / real sp\<rceil>])"
      by (rule less)
    have "createDots_y x y h sp acc = createDots_y x (y + sp) h sp (acc @ [new_dot x y])"
      using True by (subst createDots_y.simps) simp
    also note ih
    finally show ?thesis
      by (simp add: steps_Suc [OF assms True] map_upt_Suc ac_simps del: upt_Suc)
  qed
qed

lemma createDots_x_eq:
  assumes "0 < sp"
  shows "createDots_x x w h sp acc =
           Some (acc @ concat (map (\<lambda>i. map (\<lambda>j. new_dot (x + i * sp) (j * sp)) [0..<nat \<lceil>real h / real sp\<rceil>])
                                [0..<nat \<lceil>(real w - real x) / real sp\<rceil>]))"
proof (induction "w - x" arbitrary: x acc rule: less_induct)
  case less
  show ?case
  proof (cases "x < w")
    case False
    then show ?thesis
      by (subst createDots_x.simps) (simp add: steps_0)
  next
    case True
    have "w - (x + sp) < w - x" using True assms by simp
    then have ih: "\<And>acc'. createDots_x (x + sp) w h sp acc' =
        Some (acc' @ concat (map (\<lambda>i. map (\<lambda>j. new_dot ((x + sp) + i * sp) (j * sp)) [0..<nat \<lceil>real h / real sp\<rceil>])
                                [0..<nat \<lceil>(real w - real (x + sp)) / real sp\<rceil>]))"
      by (rule less)
    have "createDots_x x w h sp acc =
            createDots_x (x + sp) w h sp (acc @ map (\<lambda>j. new_dot x (j * sp)) [0..<nat \<lceil>real h / real sp\<rceil>])"
      using True by (subst createDots_x.simps) (simp add: createDots_y_eq [OF assms])
    also note ih
    finally show ?thesis
      by (simp add: steps_Suc [OF assms True] map_upt_Suc ac_simps del: upt_Suc)
  qed
qed

lemma createDots_eq: "0 < sp \<Longrightarrow> createDots w h sp = Some (dot_grid w h sp)"
  by (simp add: createDots_def dot_grid_def createDots_x_eq)

lemma length_dot_grid: "length (dot_grid w h sp) = nat \<lceil>real w / real sp\<rceil> * nat \<lceil>real h / real sp\<rceil>"
  by (simp add: dot_grid_def length_concat comp_def sum_list_triv)

section \<open>The methods, one at a time\<close>

lemma stop_noop: "animationId_of w = None \<Longrightarrow> stop w = w"
  by (simp add: stop_def animationId_of_def split: session.splits option.splits)

lemma stop_idem: "stop (stop w) = stop w"
  by (simp add: stop_def cancelAnimationFrame_def split: session.splits option.splits)

lemma animate_invisible: "\<not> isVisible_of w \<Longrightarrow> animate w = w"
  by (simp add: animate_def isVisible_of_def split: session.splits)

lemma start_invisible: "\<not> isVisible_of w \<Longrightarrow> start w = w"
  by (simp add: start_def animate_invisible)



section \<open>Every event returns and keeps the invariant\<close>

lemma effect_draw_sp:
  "(case fst (fst (effect_draw m t w h r p e)) of About dots sp \<Rightarrow> 0 < sp | _ \<Rightarrow> True)
     = (case e of About dots sp \<Rightarrow> 0 < sp | _ \<Rightarrow> True)"
  by (simp add: effect_draw_def Let_def split: effect_state.splits)

lemma lifecycle_inv_animate: "lifecycle_inv w \<Longrightarrow> lifecycle_inv (animate w)"
  by (auto simp: lifecycle_inv_def animate_def requestAnimationFrame_def Let_def effect_draw_sp
      split: session.splits)

lemma lifecycle_inv_pending: "lifecycle_inv (w\<lparr>pending := ps\<rparr>) = lifecycle_inv w"
  by (simp add: lifecycle_inv_def split: session.splits)

lemma lifecycle_inv_start: "lifecycle_inv w \<Longrightarrow> lifecycle_inv (start w)"
  by (simp add: start_def lifecycle_inv_animate)

lemma lifecycle_inv_stop: "lifecycle_inv w \<Longrightarrow> lifecycle_inv (stop w)"
  by (auto simp: lifecycle_inv_def stop_def cancelAnimationFrame_def split: session.splits option.splits)

lemma lifecycle_inv_enter: "lifecycle_inv w \<Longrightarrow> lifecycle_inv (start (set_isVisible True w))"
  by (rule lifecycle_inv_start)
     (auto simp: lifecycle_inv_def set_isVisible_def split: session.splits option.splits)

lemma lifecycle_inv_leave: "lifecycle_inv w \<Longrightarrow> lifecycle_inv (stop (set_isVisible False w))"
  by (auto simp: lifecycle_inv_def stop_def set_isVisible_def cancelAnimationFrame_def
      split: session.splits option.splits)

lemma lifecycle_inv_observer: "lifecycle_inv w \<Longrightarrow> lifecycle_inv (observer_callback es w)"
  by (induction es arbitrary: w) (simp_all add: lifecycle_inv_enter lifecycle_inv_leave)

lemma lifecycle_inv_frames: "lifecycle_inv w \<Longrightarrow> lifecycle_inv (run_frame_callbacks hs w)"
  by (induction hs arbitrary: w) (simp_all add: lifecycle_inv_animate lifecycle_inv_pending)


lemma createDots_total: "0 < sp \<Longrightarrow> \<exists>dots. createDots w h sp = Some dots"
  using createDots_eq by blast

lemma resize_returns:
  assumes "lifecycle_inv w" "session w \<noteq> Inert"
  shows "\<exists>w'. resize w = Inr w' \<and> lifecycle_inv w'"
proof -
  obtain l where l: "session w = Live l" using assms(2) by (cases "session w") auto
  show ?thesis
  proof (cases "effect l")
    case (About dots sp)
    then have "0 < sp" using assms(1) l by (simp add: lifecycle_inv_def)
    then obtain dots' where "createDots (innerWidth w) (innerHeight w) sp = Some dots'"
      using createDots_total by blast
    then show ?thesis using assms(1) l About
      by (simp add: resize_def effect_onResize_def lifecycle_inv_def split: option.splits)
  qed (use assms(1) l in \<open>simp_all add: resize_def effect_onResize_def lifecycle_inv_def
         split: option.splits\<close>)
qed

lemma lifecycle_inv_env:
  "lifecycle_inv (w\<lparr>innerWidth := iw, innerHeight := ih\<rparr>) = lifecycle_inv w"
  "lifecycle_inv (w\<lparr>mouse := m\<rparr>) = lifecycle_inv w"
  "lifecycle_inv (w\<lparr>rectTop := t\<rparr>) = lifecycle_inv w"
  "lifecycle_inv (w\<lparr>frame_id := n\<rparr>) = lifecycle_inv w"
  "lifecycle_inv (w\<lparr>rand_pos := n\<rparr>) = lifecycle_inv w"
  by (simp_all add: lifecycle_inv_def split: session.splits)

lemma step_returns:
  assumes "lifecycle_inv w"
  shows "\<exists>w'. step e w = Inr w' \<and> lifecycle_inv w'"
proof (cases e)
  case (WindowResize iw ih)
  show ?thesis
  proof (cases "resize_listener w")
    case True
    then have "session (w\<lparr>innerWidth := iw, innerHeight := ih\<rparr>) \<noteq> Inert"
      using assms by (auto simp: lifecycle_inv_def split: session.splits)
    then show ?thesis using True WindowResize assms resize_returns [of "w\<lparr>innerWidth := iw, innerHeight := ih\<rparr>"]
      by (simp add: step_def lifecycle_inv_env)
  next
    case False
    then show ?thesis using WindowResize assms by (simp add: step_def lifecycle_inv_env)
  qed
qed (use assms in \<open>simp_all add: step_def lifecycle_inv_env lifecycle_inv_observer
       lifecycle_inv_frames lifecycle_inv_start lifecycle_inv_stop lifecycle_inv_animate\<close>)

lemma run_returns:
  "lifecycle_inv w \<Longrightarrow> \<exists>w'. run evs w = Inr w' \<and> lifecycle_inv w'"
proof (induction evs arbitrary: w)
  case Nil
  then show ?case by simp
next
  case (Cons e evs)
  from step_returns [OF Cons.prems, of e] obtain w1 where "step e w = Inr w1" "lifecycle_inv w1"
    by blast
  then show ?case using Cons.IH [of w1] by simp
qed

lemma effect_init_returns: "\<exists>r. effect_init c rnd pos w h = Some r \<and> (case fst r of About dots sp \<Rightarrow> 0 < sp | _ \<Rightarrow> True)"
  by (cases c) (simp_all add: effect_init_def AboutCanvas_init_def Let_def createDots_eq)

lemma new_canvas_returns:
  "\<exists>w. new_canvas c (page_load el iw ih rtop rnd pos fid) = Inr w \<and> lifecycle_inv w
        \<and> loop_inv w \<and> single_loop w"
proof (cases el)
  case None
  then show ?thesis
    by (simp add: new_canvas_def page_load_def lifecycle_inv_def loop_inv_def single_loop_def
        isVisible_of_def animationId_of_def)
next
  case (Some d)
  obtain r where "effect_init c rnd pos iw ih = Some r"
    "(case fst r of About dots sp \<Rightarrow> 0 < sp | _ \<Rightarrow> True)"
    using effect_init_returns by blast
  then show ?thesis using Some
    by (simp add: new_canvas_def page_load_def lifecycle_inv_def loop_inv_def single_loop_def
        isVisible_of_def animationId_of_def)
qed

section \<open>A visible session keeps its loop\<close>

lemma loop_inv_animate: "loop_inv w \<Longrightarrow> loop_inv (animate w)"
  by (auto simp: loop_inv_def animate_def isVisible_of_def animationId_of_def
      requestAnimationFrame_def Let_def split: session.splits)

lemma loop_inv_pending: "loop_inv (w\<lparr>pending := ps\<rparr>) = loop_inv w"
  by (simp add: loop_inv_def isVisible_of_def animationId_of_def)

lemma loop_inv_start: "loop_inv w \<Longrightarrow> loop_inv (start w)"
  by (simp add: start_def loop_inv_animate)

lemma loop_inv_enter: "lifecycle_inv w \<Longrightarrow> loop_inv (start (set_isVisible True w))"
  by (auto simp: loop_inv_def lifecycle_inv_def start_def animate_def set_isVisible_def truthy_def
      isVisible_of_def animationId_of_def requestAnimationFrame_def Let_def
      split: session.splits option.splits)

lemma loop_inv_leave: "loop_inv (stop (set_isVisible False w))"
  by (auto simp: loop_inv_def stop_def set_isVisible_def cancelAnimationFrame_def
      isVisible_of_def animationId_of_def split: session.splits option.splits)

lemma loop_inv_observer:
  "lifecycle_inv w \<Longrightarrow> loop_inv w \<Longrightarrow> loop_inv (observer_callback es w)"
  by (induction es arbitrary: w)
     (simp_all add: loop_inv_enter loop_inv_leave lifecycle_inv_enter lifecycle_inv_leave)

lemma loop_inv_frames: "loop_inv w \<Longrightarrow> loop_inv (run_frame_callbacks hs w)"
  by (induction hs arbitrary: w) (simp_all add: loop_inv_animate loop_inv_pending)

lemma loop_inv_resize: "resize w = Inr w' \<Longrightarrow> loop_inv w' = loop_inv w"
  by (auto simp: resize_def loop_inv_def isVisible_of_def animationId_of_def
      split: session.splits option.splits)

lemma loop_inv_env:
  "loop_inv (w\<lparr>innerWidth := iw, innerHeight := ih\<rparr>) = loop_inv w"
  "loop_inv (w\<lparr>mouse := m\<rparr>) = loop_inv w"
  "loop_inv (w\<lparr>rectTop := t\<rparr>) = loop_inv w"
  "loop_inv (w\<lparr>frame_id := n\<rparr>) = loop_inv w"
  "loop_inv (w\<lparr>rand_pos := n\<rparr>) = loop_inv w"
  by (simp_all add: loop_inv_def isVisible_of_def animationId_of_def)

lemma loop_inv_step:
  assumes "lifecycle_inv w" "loop_inv w" "e \<noteq> CallStop" "step e w = Inr w'"
  shows "loop_inv w'"
  using assms
  by (cases e)
     (auto simp: step_def Let_def loop_inv_env loop_inv_observer loop_inv_frames loop_inv_start
        loop_inv_animate loop_inv_resize split: if_splits)

lemma loop_inv_run:
  assumes "lifecycle_inv w" "loop_inv w" "CallStop \<notin> set evs" "run evs w = Inr w'"
  shows "loop_inv w'"
  using assms
proof (induction evs arbitrary: w)
  case Nil
  then show ?case by simp
next
  case (Cons e evs)
  from step_returns [OF Cons.prems(1), of e] obtain w1 where w1: "step e w = Inr w1" "lifecycle_inv w1"
    by blast
  moreover have "loop_inv w1" using loop_inv_step [OF Cons.prems(1,2) _ w1(1)] Cons.prems(3) by auto
  ultimately show ?case using Cons.IH [of w1] Cons.prems by simp
qed

lemma handle_visible: "lifecycle_inv w \<Longrightarrow> animationId_of w \<noteq> None \<Longrightarrow> isVisible_of w"
  by (auto simp: lifecycle_inv_def animationId_of_def isVisible_of_def split: session.splits)


section \<open>One loop at a time\<close>














text \<open>A run whose frames the host alone has run has no in-flight frame at all.\<close>

lemma no_in_flight_idle: "lifecycle_inv w \<Longrightarrow> InFlightFrame \<notin> set evs \<Longrightarrow> in_flight_only_when_idle evs w"
proof (induction evs arbitrary: w)
  case Nil
  then show ?case by simp
next
  case (Cons e evs)
  from step_returns [OF Cons.prems(1), of e] obtain w1 where w1: "step e w = Inr w1" "lifecycle_inv w1"
    by blast
  then show ?case using Cons by auto
qed


lemma run_append: "run (xs @ ys) w = (case run xs w of Inl f \<Rightarrow> Inl f | Inr w' \<Rightarrow> run ys w')"
  by (induction xs arbitrary: w) (simp_all split: sum.splits)




section \<open>Frame steps on a hidden session\<close>



section \<open>A session without an element\<close>

lemma inert_step:
  assumes "session w = Inert" "\<not> observed w" "\<not> resize_listener w" "pending w = []"
  shows "\<exists>w'. step e w = Inr w' \<and> session w' = Inert \<and> \<not> observed w' \<and> \<not> resize_listener w'
           \<and> pending w' = [] \<and> trace w' = trace w \<and> element w' = element w"
  using assms
  by (cases e) (simp_all add: step_def start_def stop_def animate_def truthy_def animationId_of_def)

lemma inert_run:
  assumes "session w = Inert" "\<not> observed w" "\<not> resize_listener w" "pending w = []"
  shows "\<exists>w'. run evs w = Inr w' \<and> session w' = Inert \<and> \<not> observed w' \<and> \<not> resize_listener w'
           \<and> pending w' = [] \<and> trace w' = trace w \<and> element w' = element w"
  using assms
proof (induction evs arbitrary: w)
  case Nil
  then show ?case by simp
next
  case (Cons e evs)
  from inert_step [OF Cons.prems, of e] obtain w1 where w1: "step e w = Inr w1" "session w1 = Inert"
    "\<not> observed w1" "\<not> resize_listener w1" "pending w1 = []" "trace w1 = trace w"
    "element w1 = element w"
    by blast
  from Cons.IH [OF w1(2-5)] w1 show ?case by simp
qed

section \<open>Resizing a live session\<close>

lemma resize_step_live:
  assumes "lifecycle_inv w" "session w = Live l"
  shows "\<exists>w' l'. step (WindowResize iw ih) w = Inr w' \<and> session w' = Live l'
           \<and> innerWidth w' = iw \<and> innerHeight w' = ih \<and> width l' = iw \<and> height l' = ih
           \<and> (case effect l of
                 About dots sp \<Rightarrow> effect l' = About (dot_grid iw ih sp) sp
               | _ \<Rightarrow> effect l' = effect l)"
proof (cases "effect l")
  case (About dots sp)
  then have "0 < sp" using assms by (simp add: lifecycle_inv_def)
  then show ?thesis using assms About
    by (simp add: step_def resize_def effect_onResize_def lifecycle_inv_def createDots_eq)
qed (use assms in \<open>simp_all add: step_def resize_def effect_onResize_def lifecycle_inv_def\<close>)

lemma observed_animate: "observed (animate w) = observed w"
  by (simp add: animate_def requestAnimationFrame_def Let_def split: session.splits)

lemma observed_start: "observed (start w) = observed w"
  by (simp add: start_def observed_animate)

lemma observed_stop: "observed (stop w) = observed w"
  by (simp add: stop_def cancelAnimationFrame_def split: session.splits option.splits)

lemma observed_set_isVisible: "observed (set_isVisible b w) = observed w"
  by (simp add: set_isVisible_def split: session.splits)

lemma observed_observer: "observed (observer_callback es w) = observed w"
  by (induction es arbitrary: w)
     (simp_all add: observed_start observed_stop observed_set_isVisible)

lemma observed_frames: "observed (run_frame_callbacks hs w) = observed w"
  by (induction hs arbitrary: w) (simp_all add: observed_animate)

lemma observed_resize: "resize w = Inr w' \<Longrightarrow> observed w' = observed w"
  by (auto simp: resize_def split: session.splits option.splits)

lemma observed_step: "step e w = Inr w' \<Longrightarrow> observed w' = observed w"
  by (cases e)
     (auto simp: step_def Let_def observed_observer observed_frames observed_start observed_stop
        observed_animate observed_resize split: if_splits)

lemma observed_run: "run evs w = Inr w' \<Longrightarrow> observed w' = observed w"
proof (induction evs arbitrary: w)
  case Nil
  then show ?case by simp
next
  case (Cons e evs)
  then show ?case by (auto split: sum.splits dest: observed_step)
qed

lemma live_when_observed: "lifecycle_inv w \<Longrightarrow> observed w \<Longrightarrow> \<exists>l. session w = Live l"
  by (cases "session w") (simp_all add: lifecycle_inv_def)

lemma lifetime_live:
  "\<exists>w l. lifetime c (page_load (Some d) iw ih rtop rnd pos fid) evs = Inr w
         \<and> session w = Live l \<and> lifecycle_inv w"
proof -
  let ?pg = "page_load (Some d) iw ih rtop rnd pos fid"
  obtain w0 where w0: "new_canvas c ?pg = Inr w0" "lifecycle_inv w0"
    using new_canvas_returns by blast
  then have o: "observed w0"
    by (auto simp: new_canvas_def page_load_def split: option.splits)
  obtain w where w: "run evs w0 = Inr w" "lifecycle_inv w"
    using run_returns [OF w0(2)] by blast
  then have "observed w" using o observed_run by blast
  then show ?thesis using w w0(1) live_when_observed by (auto simp: lifetime_def)
qed

section \<open>The gravity particles and the surface\<close>

lemma contact_step_in_bounds: "in_bounds w h (contact_step m rtop w h r p)"
  by (simp add: in_bounds_def contact_step_def Let_def)

lemma contact_steps_in_bounds: "list_all (in_bounds w h) (contact_steps m rtop w h rnd pos ps)"
  by (induction ps arbitrary: pos) (simp_all add: contact_step_in_bounds)

lemma new_particle_in_bounds:
  assumes "\<forall>n. 0 \<le> rnd n \<and> rnd n < 1"
  shows "in_bounds w h (new_particle rnd pos w h)"
proof -
  have "rnd n * real k \<le> real k" "0 \<le> rnd n * real k" for n k
    using assms by (simp_all add: mult_left_le_one_le less_imp_le)
  then show ?thesis by (simp add: in_bounds_def new_particle_def)
qed

section \<open>The pointer at its default\<close>

text \<open>
  What the distances decide in a frame step: a dot without force only relaxes towards its
  origin, a shape that is not near keeps its horizontal position, and a gravity particle
  beyond its radius is not accelerated.
\<close>

lemma about_step_no_force:
  "about_force m rtop d = 0 \<Longrightarrow>
     dot_x (about_step m rtop d) = dot_x d + (originX d - dot_x d) * 0.1
     \<and> dot_y (about_step m rtop d) = dot_y d + (originY d - dot_y d) * 0.1"
  by (simp add: about_step_def Let_def)

lemma skills_step_not_near:
  "\<not> skills_near m rtop s \<Longrightarrow> sh_x (skills_step m rtop h s) = sh_x s"
  by (cases "sh_x s") (simp_all add: skills_near_def skills_step_def Let_def)

lemma contact_step_not_near:
  "\<not> contact_dist m rtop p < 300 \<Longrightarrow>
     p_vx (contact_step m rtop w h r p) = p_vx p * p_friction p
     \<and> p_vy (contact_step m rtop w h r p) = p_vy p * p_friction p"
  by (simp add: contact_step_def Let_def)

lemma far_sqrt:
  fixes x dy :: real
  assumes "0 \<le> x"
  shows "1000 \<le> sqrt ((- 1000 - x) * (- 1000 - x) + dy * dy)"
proof -
  have "1000 + x \<le> sqrt ((1000 + x)\<^sup>2 + dy\<^sup>2)" by (rule real_sqrt_sum_squares_ge1)
  moreover have "(1000 + x)\<^sup>2 + dy\<^sup>2 = (- 1000 - x) * (- 1000 - x) + dy * dy"
    by (simp add: power2_eq_square algebra_simps)
  ultimately show ?thesis using assms by simp
qed

lemma about_dist_far: "0 \<le> dot_x d \<Longrightarrow> 1000 \<le> about_dist (- 1000, - 1000) rtop d"
  by (simp add: about_dist_def Let_def far_sqrt)

lemma about_force_zero: "0 \<le> dot_x d \<Longrightarrow> about_force (- 1000, - 1000) rtop d = 0"
  using about_dist_far [of d rtop] by (simp add: about_force_def)

lemma about_step_rest:
  "0 \<le> dot_x d \<Longrightarrow> dot_x d = originX d \<Longrightarrow>
     dot_x (about_step (- 1000, - 1000) rtop d) = dot_x d
     \<and> originX (about_step (- 1000, - 1000) rtop d) = originX d"
  by (simp add: about_step_def Let_def about_force_zero)

lemma skills_dist_far: "0 \<le> x \<Longrightarrow> 1000 \<le> skills_dist (- 1000, - 1000) rtop x y"
  using far_sqrt [of x "- 1000 - (y + rtop)"] by (simp add: skills_dist_def Let_def add.commute)

lemma skills_not_near:
  "sh_x s = Num x \<Longrightarrow> 0 \<le> x \<Longrightarrow> \<not> skills_near (- 1000, - 1000) rtop s"
  using skills_dist_far [of x rtop "sh_y s - sh_speed s"] by (simp add: skills_near_def)

lemma skills_step_rest:
  "sh_x s = Num x \<Longrightarrow> 0 \<le> x \<Longrightarrow> sh_x (skills_step (- 1000, - 1000) rtop h s) = Num x"
  using skills_dist_far [of x rtop "sh_y s - sh_speed s"] by (simp add: skills_step_def Let_def)

lemma shape_right_step:
  assumes "case sh_x s of NaN \<Rightarrow> False | Num x \<Rightarrow> 0 \<le> x"
  shows "case sh_x (skills_step (- 1000, - 1000) rtop h s) of NaN \<Rightarrow> False | Num x \<Rightarrow> 0 \<le> x"
proof (cases "sh_x s")
  case (Num x)
  then show ?thesis using assms skills_step_rest [of s x rtop h] by simp
next
  case NaN
  then show ?thesis using assms by simp
qed

lemma contact_dist_far: "0 \<le> p_x p \<Longrightarrow> 1000 \<le> contact_dist (- 1000, - 1000) rtop p"
  using far_sqrt [of "p_x p" "- 1000 - rtop - p_y p"] by (simp add: contact_dist_def Let_def)

lemma contact_steps_nonneg: "list_all (\<lambda>p. 0 \<le> p_x p) (contact_steps m rtop w h rnd pos ps)"
  by (induction ps arbitrary: pos) (simp_all add: contact_step_def Let_def)

lemma right_of_origin_draw:
  assumes "right_of_origin e"
  shows "right_of_origin (fst (fst (effect_draw (- 1000, - 1000) rtop w h rnd pos e)))"
proof (cases e)
  case (About dots sp)
  then show ?thesis using assms
    by (auto simp: right_of_origin_def effect_draw_def AboutCanvas_draw_def Let_def list_all_iff
        about_step_rest)
next
  case (Skills shapes)
  then show ?thesis using assms
    by (simp add: right_of_origin_def effect_draw_def SkillsCanvas_draw_def Let_def list_all_iff
        shape_right_step)
next
  case (Contact ps)
  then show ?thesis
    by (simp add: right_of_origin_def effect_draw_def ContactCanvas_draw_def Let_def
        contact_steps_nonneg)
qed (simp_all add: right_of_origin_def effect_draw_def Let_def)

lemma right_of_origin_grid: "right_of_origin (About (dot_grid w h sp) sp)"
  by (simp add: right_of_origin_def dot_grid_def list_all_iff new_dot_def)

lemma right_of_origin_onResize:
  assumes "right_of_origin e" "case e of About dots sp \<Rightarrow> 0 < sp | _ \<Rightarrow> True"
    "effect_onResize w h e = Some e'"
  shows "right_of_origin e'"
  using assms
  by (cases e) (auto simp: effect_onResize_def createDots_eq right_of_origin_grid)

lemma right_of_origin_init:
  assumes "\<forall>n. 0 \<le> rnd n \<and> rnd n < 1" "effect_init c rnd pos w h = Some r"
  shows "right_of_origin (fst r)"
proof -
  have nn: "0 \<le> rnd n * real k" for n k using assms(1) by simp
  show ?thesis
  proof (cases c)
    case AboutCanvas
    then show ?thesis using assms(2)
      by (auto simp: effect_init_def AboutCanvas_init_def createDots_eq right_of_origin_grid)
  qed (use assms(2) nn in \<open>auto simp: effect_init_def right_of_origin_def Let_def list_all_iff
        HeroCanvas_init_def SkillsCanvas_init_def ContactCanvas_init_def new_shape_def new_particle_def\<close>)
qed

lemma idle_inv_animate: "idle_inv w \<Longrightarrow> idle_inv (animate w)"
  by (auto simp: idle_inv_def animate_def requestAnimationFrame_def Let_def right_of_origin_draw
      split: session.splits)

lemma idle_inv_pending: "idle_inv (w\<lparr>pending := ps\<rparr>) = idle_inv w"
  by (simp add: idle_inv_def)

lemma idle_inv_start: "idle_inv w \<Longrightarrow> idle_inv (start w)"
  by (simp add: start_def idle_inv_animate)

lemma idle_inv_stop: "idle_inv w \<Longrightarrow> idle_inv (stop w)"
  by (auto simp: idle_inv_def stop_def cancelAnimationFrame_def split: session.splits option.splits)

lemma idle_inv_set_isVisible: "idle_inv (set_isVisible b w) = idle_inv w"
  by (simp add: idle_inv_def set_isVisible_def split: session.splits)

lemma idle_inv_observer: "idle_inv w \<Longrightarrow> idle_inv (observer_callback es w)"
  by (induction es arbitrary: w) (simp_all add: idle_inv_start idle_inv_stop idle_inv_set_isVisible)

lemma idle_inv_frames: "idle_inv w \<Longrightarrow> idle_inv (run_frame_callbacks hs w)"
  by (induction hs arbitrary: w) (simp_all add: idle_inv_animate idle_inv_pending)

lemma idle_inv_resize:
  assumes "idle_inv w" "lifecycle_inv w" "resize w = Inr w'"
  shows "idle_inv w'"
proof (cases "session w")
  case Inert
  then show ?thesis using assms(3) by (simp add: resize_def)
next
  case (Live l)
  then obtain e where e: "effect_onResize (innerWidth w) (innerHeight w) (effect l) = Some e"
    and w': "w' = w\<lparr>element := Some (innerWidth w, innerHeight w),
                     session := Live (l\<lparr>width := innerWidth w, height := innerHeight w, effect := e\<rparr>)\<rparr>"
    using assms(3) by (auto simp: resize_def split: option.splits)
  have sp: "case effect l of About dots sp \<Rightarrow> 0 < sp | _ \<Rightarrow> True"
    using assms(2) Live by (simp add: lifecycle_inv_def)
  show ?thesis using assms(1) Live w' right_of_origin_onResize [OF _ sp e]
    by (auto simp: idle_inv_def)
qed

lemma idle_inv_env:
  "idle_inv (w\<lparr>innerWidth := iw, innerHeight := ih\<rparr>) = idle_inv w"
  "idle_inv (w\<lparr>rectTop := t\<rparr>) = idle_inv w"
  "idle_inv (w\<lparr>frame_id := n\<rparr>) = idle_inv w"
  "idle_inv (w\<lparr>rand_pos := n\<rparr>) = idle_inv w"
  "0 \<le> cx \<Longrightarrow> idle_inv (w\<lparr>mouse := (cx, cy)\<rparr>)"
  by (simp_all add: idle_inv_def)

lemma idle_inv_step:
  assumes "idle_inv w" "lifecycle_inv w" "viewport_pointer e" "step e w = Inr w'"
  shows "idle_inv w'"
proof (cases e)
  case (WindowResize iw ih)
  then show ?thesis
    using assms idle_inv_resize [of "w\<lparr>innerWidth := iw, innerHeight := ih\<rparr>" w']
    by (auto simp: step_def Let_def idle_inv_env lifecycle_inv_env split: if_splits)
qed (use assms in \<open>auto simp: step_def idle_inv_env idle_inv_observer idle_inv_frames
       idle_inv_start idle_inv_stop idle_inv_animate\<close>)

lemma idle_inv_run:
  assumes "idle_inv w" "lifecycle_inv w" "list_all viewport_pointer evs" "run evs w = Inr w'"
  shows "idle_inv w'"
  using assms
proof (induction evs arbitrary: w)
  case Nil
  then show ?case by simp
next
  case (Cons e evs)
  from step_returns [OF Cons.prems(2), of e] obtain w1 where w1: "step e w = Inr w1" "lifecycle_inv w1"
    by blast
  moreover have "idle_inv w1" using idle_inv_step [OF Cons.prems(1,2) _ w1(1)] Cons.prems(3) by simp
  ultimately show ?case using Cons.IH [of w1] Cons.prems by simp
qed

lemma idle_inv_new:
  assumes "\<forall>n. 0 \<le> rnd n \<and> rnd n < 1"
    "new_canvas c (page_load el iw ih rtop rnd pos fid) = Inr w"
  shows "idle_inv w"
  using assms(2) right_of_origin_init [OF assms(1)]
  by (auto simp: new_canvas_def page_load_def idle_inv_def split: option.splits)

lemma idle_far:
  assumes "idle_inv w" "mouse w = (- 1000, - 1000)"
  shows "list_all (beyond 300) (pointer_dists w) \<and> \<not> pointer_interaction w"
proof (cases "session w")
  case Inert
  then show ?thesis by (simp add: pointer_dists_def pointer_interaction_def)
next
  case (Live l)
  then have r: "right_of_origin (effect l)" using assms by (simp add: idle_inv_def)
  show ?thesis
  proof (cases "effect l")
    case (About dots sp)
    then have "\<forall>d\<in>set dots. 0 \<le> dot_x d" using r by (auto simp: right_of_origin_def list_all_iff)
    then have "\<forall>d\<in>set dots. 300 < about_dist (- 1000, - 1000) (rectTop w) d
                 \<and> about_force (- 1000, - 1000) (rectTop w) d = 0"
      using about_dist_far [of _ "rectTop w"] about_force_zero [of _ "rectTop w"] by fastforce
    then show ?thesis using Live About assms(2)
      by (simp add: pointer_dists_def pointer_interaction_def list_all_iff list_ex_iff beyond_def)
  next
    case (Skills shapes)
    have "\<not> skills_near (mouse w) (rectTop w) s
          \<and> beyond 300 (case sh_x s of NaN \<Rightarrow> None
              | Num x \<Rightarrow> Some (skills_dist (mouse w) (rectTop w) x (sh_y s - sh_speed s)))"
      if "s \<in> set shapes" for s
    proof -
      have "case sh_x s of NaN \<Rightarrow> False | Num x \<Rightarrow> 0 \<le> x"
        using r Skills that by (simp add: right_of_origin_def list_all_iff)
      then obtain x where x: "sh_x s = Num x" "0 \<le> x" by (cases "sh_x s") auto
      then show ?thesis
        using skills_not_near [OF x, of "rectTop w"]
          skills_dist_far [OF x(2), of "rectTop w" "sh_y s - sh_speed s"] assms(2)
        by (simp add: beyond_def)
    qed
    then show ?thesis using Live Skills
      by (simp add: pointer_dists_def pointer_interaction_def list_all_iff list_ex_iff)
  next
    case (Contact ps)
    then have "\<forall>p\<in>set ps. 0 \<le> p_x p" using r by (simp add: right_of_origin_def list_all_iff)
    then have "\<forall>p\<in>set ps. 300 < contact_dist (- 1000, - 1000) (rectTop w) p"
      using contact_dist_far [of _ "rectTop w"] by fastforce
    then show ?thesis using Live Contact assms(2)
      by (auto simp: pointer_dists_def pointer_interaction_def list_all_iff list_ex_iff beyond_def)
  qed (use Live in \<open>simp_all add: pointer_dists_def pointer_interaction_def\<close>)
qed

section \<open>Evaluating concrete runs\<close>

lemmas eval_defs = lifetime_def new_canvas_def sample_page_def page_load_def effect_init_def step_def
  start_def stop_def animate_def set_isVisible_def truthy_def animationId_of_def isVisible_of_def
  requestAnimationFrame_def cancelAnimationFrame_def Let_def effect_draw_def

section \<open>The claims\<close>

text \<open>
  C1, as amended. The claim: for a session with a present element, after any sequence of
  observer callbacks, \<^verbatim>\<open>start\<close>, \<^verbatim>\<open>stop\<close> and frame steps, the handle
  \<^verbatim>\<open>animationId\<close> is non-null exactly when \<^verbatim>\<open>isVisible\<close> is true. That fails after
  a call of \<^verbatim>\<open>stop\<close> on a visible session, which clears the handle and leaves the flag.
  What holds: every life of a session returns; a handle is held only while the session is
  visible; and when \<^verbatim>\<open>stop\<close> is called by the observer callback only, the handle is
  non-null exactly when the session is visible.
\<close>

theorem handle_iff_visible_unless_stopped:
  "\<exists>w. lifetime c (page_load el iw ih rtop rnd pos fid) evs = Inr w
        \<and> (animationId_of w \<noteq> None \<longrightarrow> isVisible_of w)
        \<and> (CallStop \<notin> set evs \<longrightarrow> (animationId_of w \<noteq> None) = isVisible_of w)"
proof -
  obtain w0 where w0: "new_canvas c (page_load el iw ih rtop rnd pos fid) = Inr w0"
    "lifecycle_inv w0" "loop_inv w0"
    using new_canvas_returns by blast
  obtain w where w: "run evs w0 = Inr w" "lifecycle_inv w"
    using run_returns [OF w0(2)] by blast
  have "CallStop \<notin> set evs \<Longrightarrow> loop_inv w"
    using loop_inv_run [OF w0(2,3) _ w(1)] by simp
  then show ?thesis using w w0(1) handle_visible [OF w(2)]
    by (auto simp: lifetime_def loop_inv_def)
qed

text \<open>
  C1, the theorem at a concrete run: the sample page, the session enters the viewport.
\<close>

theorem handle_iff_visible_unless_stopped_witness:
  "\<exists>w. lifetime ProjectsCanvas sample_page [Intersection [True]] = Inr w
        \<and> animationId_of w \<noteq> None \<and> isVisible_of w \<and> CallStop \<notin> set [Intersection [True]]"
  using handle_iff_visible_unless_stopped [of ProjectsCanvas "Some (300, 150)" 800 600 0 always_half 0 1 "[Intersection [True]]"]
  by (simp add: eval_defs)

text \<open>
  C1, the claim as stated fails: on the sample page the session enters the viewport and
  \<^verbatim>\<open>stop\<close> is called; the session is visible and holds no handle.
\<close>

theorem visible_without_handle_counterexample:
  "\<not> isl (lifetime ProjectsCanvas sample_page [Intersection [True], CallStop])
   \<and> isVisible_of (projr (lifetime ProjectsCanvas sample_page [Intersection [True], CallStop]))
   \<and> animationId_of (projr (lifetime ProjectsCanvas sample_page [Intersection [True], CallStop])) = None"
  by (simp add: eval_defs)




text \<open>
  C3. On a session that is not running (its \<^verbatim>\<open>animationId\<close> is null) \<^verbatim>\<open>stop\<close>
  changes nothing: the world stays as it is, so no cancellation is issued and the handle
  stays null. For every world, a second \<^verbatim>\<open>stop\<close> after a first changes nothing.
\<close>

theorem stop_when_not_running_is_noop:
  "(animationId_of w = None \<longrightarrow> stop w = w) \<and> stop (stop w) = stop w"
  by (simp add: stop_noop stop_idem)

text \<open>C3 at a concrete world: the session of the sample page right after its constructor.\<close>

theorem stop_when_not_running_is_noop_witness:
  "animationId_of (projr (new_canvas ProjectsCanvas sample_page)) = None
   \<and> stop (projr (new_canvas ProjectsCanvas sample_page)) = projr (new_canvas ProjectsCanvas sample_page)"
  using stop_when_not_running_is_noop [of "projr (new_canvas ProjectsCanvas sample_page)"]
  by (simp add: eval_defs)




text \<open>
  C5. When the element is absent the constructor returns normally and the session is
  inert, and it stays so whatever happens on the page: no context is captured and the
  setup is not invoked (the trace stays empty), no observer
  and no resize listener is registered, no frame is ever requested and no callback waits.
\<close>

theorem absent_element_session_is_inert:
  "\<exists>w. lifetime c (page_load None iw ih rtop rnd pos fid) evs = Inr w
        \<and> session w = Inert \<and> element w = None \<and> \<not> observed w \<and> \<not> resize_listener w
        \<and> trace w = [] \<and> pending w = []"
proof -
  let ?w0 = "(page_load None iw ih rtop rnd pos fid)\<lparr>session := Inert\<rparr>"
  have "new_canvas c (page_load None iw ih rtop rnd pos fid) = Inr ?w0"
    by (simp add: new_canvas_def page_load_def)
  moreover have "\<exists>w'. run evs ?w0 = Inr w' \<and> session w' = Inert \<and> \<not> observed w' \<and> \<not> resize_listener w'
           \<and> pending w' = [] \<and> trace w' = trace ?w0 \<and> element w' = element ?w0"
    by (rule inert_run) (simp_all add: page_load_def)
  ultimately show ?thesis by (auto simp: lifetime_def page_load_def)
qed

text \<open>
  C6, as amended. The claim speaks of every session; a session whose element is absent
  has no resize listener and records no dimensions. What holds for every session whose
  element is present: a resize event returns, the recorded width and height are the new
  dimensions of the viewport, the grid effect, the one with a resize hook, gets the dots
  that \<^verbatim>\<open>createDots\<close> makes for the new dimensions, that is the regular grid with
  \<open>\<lceil>width / spacing\<rceil> * \<lceil>height / spacing\<rceil>\<close> dots, and every other effect keeps its state.
\<close>

theorem resize_follows_viewport_when_present:
  "\<exists>w l w' l'. lifetime c (page_load (Some d) iw ih rtop rnd pos fid) evs = Inr w
      \<and> session w = Live l
      \<and> step (WindowResize iw' ih') w = Inr w' \<and> session w' = Live l'
      \<and> innerWidth w' = iw' \<and> innerHeight w' = ih'
      \<and> recorded_size w' = Some (iw', ih')
      \<and> (case effect l of
            About dots sp \<Rightarrow>
              effect l' = About (dot_grid iw' ih' sp) sp
              \<and> createDots iw' ih' sp = Some (dot_grid iw' ih' sp)
              \<and> length (dot_grid iw' ih' sp) = nat \<lceil>real iw' / real sp\<rceil> * nat \<lceil>real ih' / real sp\<rceil>
          | _ \<Rightarrow> effect l' = effect l)"
proof -
  obtain w l where w: "lifetime c (page_load (Some d) iw ih rtop rnd pos fid) evs = Inr w"
    "session w = Live l" "lifecycle_inv w"
    using lifetime_live by blast
  obtain w' l' where w': "step (WindowResize iw' ih') w = Inr w'" "session w' = Live l'"
    "innerWidth w' = iw'" "innerHeight w' = ih'" "width l' = iw'" "height l' = ih'"
    "(case effect l of About dots sp \<Rightarrow> effect l' = About (dot_grid iw' ih' sp) sp
      | _ \<Rightarrow> effect l' = effect l)"
    using resize_step_live [OF w(3,2)] by blast
  have "case effect l of
            About dots sp \<Rightarrow>
              effect l' = About (dot_grid iw' ih' sp) sp
              \<and> createDots iw' ih' sp = Some (dot_grid iw' ih' sp)
              \<and> length (dot_grid iw' ih' sp) = nat \<lceil>real iw' / real sp\<rceil> * nat \<lceil>real ih' / real sp\<rceil>
          | _ \<Rightarrow> effect l' = effect l"
  proof (cases "effect l")
    case (About dots sp)
    then have "0 < sp" using w by (simp add: lifecycle_inv_def)
    then show ?thesis using About w'(7) by (simp add: createDots_eq length_dot_grid)
  qed (use w'(7) in simp_all)
  moreover have "recorded_size w' = Some (iw', ih')"
    using w'(2,5,6) by (simp add: recorded_size_def)
  ultimately show ?thesis using w w' by blast
qed

text \<open>
  C6, the claim as stated fails: on a page without the element the window is resized to
  1024 by 768; the viewport has the new dimensions and the session has recorded none.
\<close>

theorem inert_session_records_no_size_counterexample:
  "\<not> isl (lifetime AboutCanvas (page_load None 800 600 0 always_half 0 1) [WindowResize 1024 768])
   \<and> innerWidth (projr (lifetime AboutCanvas (page_load None 800 600 0 always_half 0 1) [WindowResize 1024 768])) = 1024
   \<and> innerHeight (projr (lifetime AboutCanvas (page_load None 800 600 0 always_half 0 1) [WindowResize 1024 768])) = 768
   \<and> recorded_size (projr (lifetime AboutCanvas (page_load None 800 600 0 always_half 0 1) [WindowResize 1024 768])) = None"
  by (simp add: eval_defs recorded_size_def)


text \<open>
  C8. While the pointer holds its default \<open>(-1000, -1000)\<close>, a frame step finds every
  entity farther from the pointer than every interaction radius, the largest of which is
  300: the force of every dot of the grid is zero, and no shape and no gravity particle
  takes the branch of its interaction. The random numbers lie in \<open>[0, 1)\<close> and the pointer
  events carry viewport coordinates.
\<close>

theorem default_pointer_exerts_no_force:
  assumes "\<forall>n. 0 \<le> rnd n \<and> rnd n < 1" "list_all viewport_pointer evs"
  shows "\<exists>w. lifetime c (page_load el iw ih rtop rnd pos fid) evs = Inr w
           \<and> (mouse w = (- 1000, - 1000)
                \<longrightarrow> list_all (beyond 300) (pointer_dists w) \<and> \<not> pointer_interaction w)"
proof -
  obtain w0 where w0: "new_canvas c (page_load el iw ih rtop rnd pos fid) = Inr w0" "lifecycle_inv w0"
    using new_canvas_returns by blast
  obtain w where w: "run evs w0 = Inr w" using run_returns [OF w0(2)] by blast
  have "idle_inv w0" using idle_inv_new [OF assms(1) w0(1)] .
  then have "idle_inv w" using idle_inv_run [OF _ w0(2) assms(2) w] by simp
  then show ?thesis using w0(1) w idle_far [of w] by (auto simp: lifetime_def)
qed

text \<open>C8 at a concrete run: a gravity session enters, the page scrolls, a frame runs.\<close>

theorem default_pointer_exerts_no_force_witness:
  "(\<forall>n. 0 \<le> always_half n \<and> always_half n < 1)
   \<and> list_all viewport_pointer [Intersection [True], Scroll 40, AnimationFrame]
   \<and> mouse (projr (lifetime ContactCanvas sample_page [Intersection [True], Scroll 40, AnimationFrame]))
       = (- 1000, - 1000)
   \<and> list_all (beyond 300)
        (pointer_dists (projr (lifetime ContactCanvas sample_page [Intersection [True], Scroll 40, AnimationFrame])))
   \<and> \<not> pointer_interaction (projr (lifetime ContactCanvas sample_page [Intersection [True], Scroll 40, AnimationFrame]))"
proof -
  have m: "mouse (projr (lifetime ContactCanvas sample_page [Intersection [True], Scroll 40, AnimationFrame]))
       = (- 1000, - 1000)"
    by (simp add: eval_defs)
  have h: "\<forall>n. 0 \<le> always_half n \<and> always_half n < 1" by (simp add: always_half_def)
  have e: "list_all viewport_pointer [Intersection [True], Scroll 40, AnimationFrame]" by simp
  show ?thesis
    using default_pointer_exerts_no_force [OF h e, of ContactCanvas "Some (300, 150)" 800 600 0 0 1] m h
    by (auto simp: sample_page_def)
qed

text \<open>
  C9. On a session that is not visible and holds no handle, \<^verbatim>\<open>start\<close> changes
  nothing: the guard of \<^verbatim>\<open>animate\<close> returns at once, the handle stays null, nothing is
  drawn and no callback is added.
\<close>

theorem start_when_hidden_is_noop:
  assumes "\<not> isVisible_of w" "animationId_of w = None"
  shows "start w = w \<and> animationId_of (start w) = None \<and> trace (start w) = trace w \<and> pending (start w) = pending w"
  using assms by (simp add: start_invisible)

text \<open>C9 at a concrete world: a gravity session right after its constructor.\<close>

theorem start_when_hidden_is_noop_witness:
  "\<not> isVisible_of (projr (new_canvas ContactCanvas sample_page))
   \<and> animationId_of (projr (new_canvas ContactCanvas sample_page)) = None
   \<and> start (projr (new_canvas ContactCanvas sample_page)) = projr (new_canvas ContactCanvas sample_page)"
  using start_when_hidden_is_noop [of "projr (new_canvas ContactCanvas sample_page)"]
  by (simp add: eval_defs)

text \<open>
  C10. The particles of the gravity effect lie on the surface, \<open>0 \<le> x \<le> width\<close> and
  \<open>0 \<le> y \<le> height\<close>, after the setup, and after every frame step: the wrap-around at
  the end of the step brings every coordinate back, whatever the particles were before,
  so the step preserves the predicate. The random numbers lie in \<open>[0, 1)\<close>.
\<close>

theorem gravity_particles_stay_on_surface:
  assumes "\<forall>n. 0 \<le> rnd n \<and> rnd n < 1"
  shows "list_all (in_bounds w h) (fst (ContactCanvas_init rnd pos w h))
       \<and> list_all (in_bounds w h) (fst (fst (ContactCanvas_draw m rtop w h rnd' pos' ps)))"
  using assms
  by (simp add: ContactCanvas_init_def ContactCanvas_draw_def Let_def contact_steps_in_bounds
      list_all_iff [of _ "map f xs" for f xs] new_particle_in_bounds)

text \<open>C10 at a concrete input: the setup in a viewport of 800 by 600 and a frame after it.\<close>

theorem gravity_particles_stay_on_surface_witness:
  "(\<forall>n. 0 \<le> always_half n \<and> always_half n < 1)
   \<and> list_all (in_bounds 800 600) (fst (ContactCanvas_init always_half 0 800 600))
   \<and> list_all (in_bounds 800 600)
        (fst (fst (ContactCanvas_draw (- 1000, - 1000) 0 800 600 always_half 100
                     (fst (ContactCanvas_init always_half 0 800 600)))))"
  using gravity_particles_stay_on_surface [of always_half 800 600 0 "(- 1000, - 1000)" 0 always_half 100
      "fst (ContactCanvas_init always_half 0 800 600)"]
  by (simp add: always_half_def)

end
